theory Spec2Isabelle
  imports Main
begin

unbundle bit_operations_syntax

section \<open>Python strings\<close>

text \<open>
  A Python \<open>str\<close> is a sequence of Unicode code points. It is modelled as a list of
  natural numbers, one per code point, so that \<open>len\<close> is \<open>length\<close> and the result of
  decoding a \<open>\uXXXX\<close> escape is a single element. ASCII literals of the source are
  written with \<open>str\<close>.
\<close>

type_synonym pystr = "nat list"

definition str :: "string \<Rightarrow> pystr" where
  "str cs = map of_char cs"

text \<open>The sentinel \<open>"Unknown"\<close> of the source.\<close>

definition unknown :: pystr where
  "unknown = str ''Unknown''"

text \<open>
  Index normalisation shared by slicing, \<open>find\<close> and \<open>rfind\<close>: a negative index counts
  from the end of the sequence and is clipped at 0.
\<close>

definition adjust_index :: "nat \<Rightarrow> int \<Rightarrow> int" where
  "adjust_index n i = (if i < 0 then max 0 (i + int n) else i)"

text \<open>\<open>xs[lo:hi]\<close>: both bounds are normalised and clipped to the length.\<close>

definition py_slice :: "'a list \<Rightarrow> int \<Rightarrow> int \<Rightarrow> 'a list" where
  "py_slice xs lo hi =
     (let n = length xs;
          a = min (adjust_index n lo) (int n);
          b = min (adjust_index n hi) (int n)
      in take (nat (b - a)) (drop (nat a) xs))"

text \<open>\<open>s.startswith(p)\<close>.\<close>

fun startswith :: "'a list \<Rightarrow> 'a list \<Rightarrow> bool" where
  "startswith xs [] = True"
| "startswith [] (p # ps) = False"
| "startswith (x # xs) (p # ps) = (x = p \<and> startswith xs ps)"

text \<open>
  The left-to-right scan of \<open>find\<close>: \<open>xs\<close> is the part of the text still to be searched
  and \<open>k\<close> the index of its first element in the whole text. The result \<open>-1\<close> means
  that the pattern was not found.
\<close>

fun find_at :: "'a list \<Rightarrow> 'a list \<Rightarrow> nat \<Rightarrow> int" where
  "find_at sub [] k = (if sub = [] then int k else - 1)"
| "find_at sub (x # xs) k =
     (if startswith (x # xs) sub then int k else find_at sub xs (Suc k))"

text \<open>\<open>text.find(sub, start)\<close>.\<close>

definition py_find :: "'a list \<Rightarrow> 'a list \<Rightarrow> int \<Rightarrow> int" where
  "py_find text sub start =
     (let n = length text; a = adjust_index n start
      in if int n - a < int (length sub) then - 1
         else find_at sub (drop (nat a) text) (nat a))"

text \<open>The scan of \<open>rfind\<close>: the highest index at which the pattern starts.\<close>

fun rfind_at :: "'a list \<Rightarrow> 'a list \<Rightarrow> nat \<Rightarrow> int" where
  "rfind_at sub [] k = (if sub = [] then int k else - 1)"
| "rfind_at sub (x # xs) k =
     (let r = rfind_at sub xs (Suc k)
      in if r \<noteq> - 1 then r
         else if startswith (x # xs) sub then int k else - 1)"

text \<open>\<open>text.rfind(sub, start, end)\<close>: the match lies wholly inside \<open>text[start:end]\<close>.\<close>

definition py_rfind :: "'a list \<Rightarrow> 'a list \<Rightarrow> int \<Rightarrow> int \<Rightarrow> int" where
  "py_rfind text sub start end =
     (let n = length text;
          a = adjust_index n start;
          b = min (adjust_index n end) (int n)
      in if b - a < int (length sub) then - 1
         else rfind_at sub (take (nat (b - a)) (drop (nat a) text)) (nat a))"

text \<open>\<open>sub in text\<close> on strings is substring search.\<close>

definition py_in :: "'a list \<Rightarrow> 'a list \<Rightarrow> bool" where
  "py_in sub text = (py_find text sub 0 \<noteq> - 1)"

text \<open>
  \<open>str.strip()\<close> removes the code points for which \<open>str.isspace\<close> holds from both
  ends; \<open>str.strip(chars)\<close> removes every leading and trailing code point that is a
  member of \<open>chars\<close>.
\<close>

definition isspace :: "nat \<Rightarrow> bool" where
  "isspace c =
     ((0x09 \<le> c \<and> c \<le> 0x0D) \<or> (0x1C \<le> c \<and> c \<le> 0x20) \<or> c = 0x85 \<or> c = 0xA0
      \<or> c = 0x1680 \<or> (0x2000 \<le> c \<and> c \<le> 0x200A) \<or> c = 0x2028 \<or> c = 0x2029
      \<or> c = 0x202F \<or> c = 0x205F \<or> c = 0x3000)"

definition strip_by :: "('a \<Rightarrow> bool) \<Rightarrow> 'a list \<Rightarrow> 'a list" where
  "strip_by P s = rev (dropWhile P (rev (dropWhile P s)))"

definition py_strip :: "pystr \<Rightarrow> pystr" where
  "py_strip s = strip_by isspace s"

definition py_strip_chars :: "pystr \<Rightarrow> pystr \<Rightarrow> pystr" where
  "py_strip_chars s chars = strip_by (\<lambda>c. c \<in> set chars) s"

section \<open>Field extraction\<close>

text \<open>
  \<open>extract_value\<close> (app.py, lines 16 to 27). \<open>find\<close> and slicing on strings raise
  nothing, so the \<open>except\<close> branch of the source is never taken and the function is
  the body of its \<open>try\<close>. The search for the end marker starts at \<open>start_index\<close>, the
  index where the start marker begins.
\<close>

definition extract_value :: "pystr \<Rightarrow> pystr \<Rightarrow> pystr \<Rightarrow> pystr" where
  "extract_value text start_marker end_marker =
     (let start_index = py_find text start_marker 0;
          end_index = py_find text end_marker start_index
      in if start_index \<noteq> - 1 \<and> end_index \<noteq> - 1
         then py_slice text (start_index + int (length start_marker)) end_index
         else unknown)"

text \<open>The specification's notion of an occurrence of a pattern at an index.\<close>

definition occurs_at :: "'a list \<Rightarrow> 'a list \<Rightarrow> nat \<Rightarrow> bool" where
  "occurs_at text sub i = (i + length sub \<le> length text \<and> take (length sub) (drop i text) = sub)"

section \<open>Decoding a JSON string literal\<close>

text \<open>
  The exceptions the program can meet. \<open>JSONDecodeError\<close> comes from \<open>json.loads\<close>,
  \<open>KeyError\<close> from indexing a dictionary, the others from the HTTP client, the MP4
  library and the file system.
\<close>

datatype exn = JSONDecodeError | KeyError | MissingSchema | ConnectionError
  | MP4StreamInfoError | OSError

text \<open>
  The source calls \<open>json.loads(f'"{raw}"')\<close>: the document is the raw text between two
  double quotes. The standard library's decoder reads a string literal with
  \<open>scanstring\<close> in strict mode, starting after the opening quote, and then requires
  that only JSON whitespace follows the closing quote. The functions below follow
  \<open>json.decoder.py_scanstring\<close>: the terminators of a chunk are the double quote, the
  backslash and the control characters below \<open>0x20\<close>.
\<close>

definition hexval :: "nat \<Rightarrow> nat option" where
  "hexval c =
     (if 0x30 \<le> c \<and> c \<le> 0x39 then Some (c - 0x30)
      else if 0x41 \<le> c \<and> c \<le> 0x46 then Some (c - 0x41 + 10)
      else if 0x61 \<le> c \<and> c \<le> 0x66 then Some (c - 0x61 + 10)
      else None)"

text \<open>The four hexadecimal digits after \<open>\u\<close>; \<open>None\<close> is the decoder's error.\<close>

fun decode_uXXXX :: "pystr \<Rightarrow> nat option" where
  "decode_uXXXX (a # b # c # d # rest) =
     (case (hexval a, hexval b, hexval c, hexval d) of
        (Some w, Some x, Some y, Some z) \<Rightarrow> Some (((w * 16 + x) * 16 + y) * 16 + z)
      | _ \<Rightarrow> None)"
| "decode_uXXXX _ = None"

text \<open>The decoder's table of one-letter escapes.\<close>

definition backslash :: "nat \<Rightarrow> nat option" where
  "backslash e =
     (if e = 0x22 then Some 0x22
      else if e = 0x5C then Some 0x5C
      else if e = 0x2F then Some 0x2F
      else if e = 0x62 then Some 0x08
      else if e = 0x66 then Some 0x0C
      else if e = 0x6E then Some 0x0A
      else if e = 0x72 then Some 0x0D
      else if e = 0x74 then Some 0x09
      else None)"

definition append_char :: "nat \<Rightarrow> exn + pystr \<times> pystr \<Rightarrow> exn + pystr \<times> pystr" where
  "append_char c r = (case r of Inl e \<Rightarrow> Inl e | Inr (chunks, rest) \<Rightarrow> Inr (c # chunks, rest))"

text \<open>
  \<open>scanstring s\<close> reads \<open>s\<close> from just after the opening quote and returns the decoded
  string with the text left after the closing quote. A high surrogate followed by an
  escaped low surrogate is joined into one code point.
\<close>

function scanstring :: "pystr \<Rightarrow> exn + pystr \<times> pystr" where
  "scanstring [] = Inl JSONDecodeError"
| "scanstring (c # cs) =
     (if c = 0x22 then Inr ([], cs)
      else if c = 0x5C then
        (case cs of
           [] \<Rightarrow> Inl JSONDecodeError
         | esc # es \<Rightarrow>
             if esc \<noteq> 0x75 then
               (case backslash esc of
                  None \<Rightarrow> Inl JSONDecodeError
                | Some char \<Rightarrow> append_char char (scanstring es))
             else
               (case decode_uXXXX es of
                  None \<Rightarrow> Inl JSONDecodeError
                | Some uni \<Rightarrow>
                    if 0xD800 \<le> uni \<and> uni \<le> 0xDBFF \<and> take 2 (drop 4 es) = [0x5C, 0x75] then
                      (case decode_uXXXX (drop 6 es) of
                         None \<Rightarrow> Inl JSONDecodeError
                       | Some uni2 \<Rightarrow>
                           if 0xDC00 \<le> uni2 \<and> uni2 \<le> 0xDFFF
                           then append_char
                                  (0x10000 + (push_bit 10 (uni - 0xD800) OR (uni2 - 0xDC00)))
                                  (scanstring (drop 10 es))
                           else append_char uni (scanstring (drop 4 es)))
                    else append_char uni (scanstring (drop 4 es))))
      else if c < 0x20 then Inl JSONDecodeError
      else append_char c (scanstring cs))"
  by pat_completeness auto
termination
  by (relation "measure length") auto

definition json_ws :: "nat \<Rightarrow> bool" where
  "json_ws c = (c = 0x20 \<or> c = 0x09 \<or> c = 0x0A \<or> c = 0x0D)"

text \<open>\<open>json.loads(f'"{raw}"')\<close>.\<close>

definition json_loads_quoted :: "pystr \<Rightarrow> exn + pystr" where
  "json_loads_quoted raw =
     (case scanstring (raw @ [0x22]) of
        Inl e \<Rightarrow> Inl e
      | Inr (obj, rest) \<Rightarrow> if dropWhile json_ws rest = [] then Inr obj else Inl JSONDecodeError)"

section \<open>The track URL\<close>

definition anchor :: pystr where
  "anchor = str ''mime_type=audio_mp4''"

text \<open>
  Lines 36 to 39 of \<open>extract_track_url\<close>: the slice of the text from just after the
  last colon before the anchor to the first comma at or after the anchor.
\<close>

definition url_span :: "pystr \<Rightarrow> int \<Rightarrow> pystr" where
  "url_span response_text mime_index =
     (let start_index = py_rfind response_text (str '':'') 0 mime_index + 1;
          end_index = py_find response_text (str '','') mime_index
      in py_slice response_text start_index end_index)"

text \<open>Line 39: \<open>.strip().strip('"')\<close>.\<close>

definition trim_span :: "pystr \<Rightarrow> pystr" where
  "trim_span s = py_strip_chars (py_strip s) [0x22]"

text \<open>The body of the \<open>try\<close> of \<open>extract_track_url\<close>; \<open>Inl\<close> is a raised exception.\<close>

definition extract_track_url_try :: "pystr \<Rightarrow> exn + pystr" where
  "extract_track_url_try response_text =
     (let mime_index = py_find response_text anchor 0
      in if mime_index = - 1 then Inr unknown
         else let raw_url = trim_span (url_span response_text mime_index)
              in case json_loads_quoted raw_url of
                   Inl e \<Rightarrow> Inl e
                 | Inr track_url \<Rightarrow>
                     Inr (if startswith track_url (str ''//'') then str ''https:'' @ track_url
                          else track_url))"

text \<open>\<open>extract_track_url\<close> (lines 30 to 48): any exception is logged and becomes the sentinel.\<close>

definition extract_track_url :: "pystr \<Rightarrow> pystr" where
  "extract_track_url response_text =
     (case extract_track_url_try response_text of Inl e \<Rightarrow> unknown | Inr track_url \<Rightarrow> track_url)"

section \<open>The track descriptor\<close>

text \<open>The descriptor is a Python dictionary from field names to strings.\<close>

type_synonym track_data = "pystr \<rightharpoonup> pystr"

definition track_name_marker :: pystr where
  \<open>track_name_marker = str ''"trackName":"''\<close>

definition artist_name_marker :: pystr where
  \<open>artist_name_marker = str ''"artistName":"''\<close>

definition cover_url_marker :: pystr where
  \<open>cover_url_marker = str ''"coverURL":"''\<close>

definition value_end_marker :: pystr where
  \<open>value_end_marker = str ''","''\<close>

text \<open>The body of the \<open>try\<close> of \<open>extract_and_log_data\<close> (lines 53 to 66).\<close>

definition extract_and_log_data_try :: "pystr \<Rightarrow> exn + track_data" where
  "extract_and_log_data_try response_text =
     (let track_name = extract_value response_text track_name_marker value_end_marker;
          artist_name = extract_value response_text artist_name_marker value_end_marker;
          cover_url = extract_value response_text cover_url_marker value_end_marker
      in case json_loads_quoted cover_url of
           Inl e \<Rightarrow> Inl e
         | Inr cover_url \<Rightarrow>
             let track_url = extract_track_url response_text
             in Inr [str ''track_name'' \<mapsto> track_name, str ''artist_name'' \<mapsto> artist_name,
                     str ''cover_url'' \<mapsto> cover_url, str ''track_url'' \<mapsto> track_url])"

text \<open>
  \<open>extract_and_log_data\<close> (lines 51 to 69): the handler of the \<open>try\<close> returns the empty
  dictionary.
\<close>

definition extract_and_log_data :: "pystr \<Rightarrow> track_data" where
  "extract_and_log_data response_text =
     (case extract_and_log_data_try response_text of Inl e \<Rightarrow> Map.empty | Inr d \<Rightarrow> d)"

section \<open>Downloading and tagging\<close>

type_synonym bytes = "nat list"
type_synonym path = pystr

record response =
  status_code :: int
  headers :: "pystr \<rightharpoonup> pystr"
  content :: bytes

text \<open>\<open>headers.get(key, default)\<close>.\<close>

definition headers_get :: "(pystr \<rightharpoonup> pystr) \<Rightarrow> pystr \<Rightarrow> pystr \<Rightarrow> pystr" where
  "headers_get h key dflt = (case h key of None \<Rightarrow> dflt | Some v \<Rightarrow> v)"

text \<open>
  The tags of an MP4 file as the tagging library presents them: a dictionary from atom
  names to values. A cover is a pair of image bytes and image format.
\<close>

datatype imageformat = FORMAT_JPEG | FORMAT_PNG

datatype tag_value = Text pystr | Covers "(bytes \<times> imageformat) list" | Data bytes

type_synonym mp4_tags = "pystr \<rightharpoonup> tag_value"

definition atom_nam :: pystr where
  "atom_nam = 0xA9 # str ''nam''"

definition atom_ART :: pystr where
  "atom_ART = 0xA9 # str ''ART''"

definition atom_covr :: pystr where
  "atom_covr = str ''covr''"

text \<open>
  What lies outside the repository is a parameter: the HTTP session (a request returns
  a response or raises), the MP4 library (\<open>mp4_load\<close> parses the bytes of a file,
  \<open>mp4_save\<close> rewrites the bytes of a file with the given tags; both may raise), and
  the name that \<open>NamedTemporaryFile\<close> picks.
\<close>

record env =
  session_get :: "pystr \<Rightarrow> exn + response"
  mp4_load :: "bytes \<Rightarrow> exn + mp4_tags"
  mp4_save :: "mp4_tags \<Rightarrow> bytes \<Rightarrow> exn + bytes"
  tmp_name :: path

text \<open>The file system, and the operations the function performs on the outside, in order.\<close>

type_synonym files = "path \<rightharpoonup> bytes"

datatype event = HttpGet pystr | TempWrite path bytes | Mp4Load path | Mp4Save path
  | FileRead path | Unlink path

text \<open>
  \<open>download_and_set_metadata\<close> (lines 79 to 142). The result is the pair of buffer and
  file name, or \<open>None\<close> for \<open>(None, None)\<close>, with the file system after the call and
  the operations performed. A missing key or an exception raised by a request or by
  the MP4 library's \<open>save\<close> reaches the outer handler, which logs and returns
  \<open>(None, None)\<close>; writing, reading and unlinking the temporary file are taken to
  succeed.
\<close>

definition download_and_set_metadata ::
  "env \<Rightarrow> track_data \<Rightarrow> files \<Rightarrow> (bytes \<times> pystr) option \<times> files \<times> event list" where
  "download_and_set_metadata env track_data fs =
     (case (track_data (str ''track_url''), track_data (str ''track_name''),
            track_data (str ''artist_name''), track_data (str ''cover_url'')) of
        (Some track_url, Some track_name, Some artist_name, Some cover_url) \<Rightarrow>
          (case session_get env track_url of
             Inl e \<Rightarrow> (None, fs, [HttpGet track_url])
           | Inr response \<Rightarrow>
               if status_code response \<noteq> 200 then (None, fs, [HttpGet track_url])
               else
                 let content_type = headers_get (headers response) (str ''Content-Type'') []
                 in if \<not> py_in (str ''audio/mp4'') content_type
                       \<and> \<not> py_in (str ''video/mp4'') content_type
                    then (None, fs, [HttpGet track_url])
                    else
                      let audio_content = content response;
                          temp_audio = tmp_name env;
                          fs1 = fs(temp_audio \<mapsto> audio_content);
                          ev1 = [HttpGet track_url, TempWrite temp_audio audio_content,
                                 HttpGet cover_url]
                      in (case session_get env cover_url of
                            Inl e \<Rightarrow> (None, fs1, ev1)
                          | Inr response2 \<Rightarrow>
                              if status_code response2 \<noteq> 200
                              then (None, fs1(temp_audio := None), ev1 @ [Unlink temp_audio])
                              else
                                let cover_data = content response2;
                                    ev2 = ev1 @ [Mp4Load temp_audio]
                                in (case mp4_load env audio_content of
                                      Inl e \<Rightarrow>
                                        (None, fs1(temp_audio := None), ev2 @ [Unlink temp_audio])
                                    | Inr audio \<Rightarrow>
                                        let audio1 = audio(atom_nam \<mapsto> Text track_name);
                                            audio2 = audio1(atom_ART \<mapsto> Text artist_name);
                                            audio3 = audio2(atom_covr \<mapsto>
                                                       Covers [(cover_data, FORMAT_JPEG)]);
                                            ev3 = ev2 @ [Mp4Save temp_audio]
                                        in (case mp4_save env audio3 audio_content of
                                              Inl e \<Rightarrow> (None, fs1, ev3)
                                            | Inr saved \<Rightarrow>
                                                let fs2 = fs1(temp_audio \<mapsto> saved);
                                                    output_buffer = saved;
                                                    fs3 = fs2(temp_audio := None)
                                                in (Some (output_buffer,
                                                          track_name @ str '' - '' @ artist_name
                                                            @ str ''.m4a''),
                                                    fs3,
                                                    ev3 @ [FileRead temp_audio,
                                                           Unlink temp_audio])))))
      | _ \<Rightarrow> (None, fs, []))"

section \<open>Concrete pages\<close>

text \<open>A page on which the title is a single comma.\<close>

definition comma_title_page :: pystr where
  \<open>comma_title_page = str ''"trackName":",","artistName":"A","''\<close>

text \<open>A page without the anchor, and a page whose URL holds the invalid escape \<open>\x\<close>.\<close>

definition no_anchor_page :: pystr where
  \<open>no_anchor_page = str ''"url":"//cdn/a.m4a",''\<close>

definition bad_escape_page :: pystr where
  \<open>bad_escape_page = str ''"u":"//cdn/'' @ [0x5C] @ str ''x?mime_type=audio_mp4",''\<close>

text \<open>A page with the anchor and no comma after it.\<close>

definition no_comma_page :: pystr where
  "no_comma_page = str ''x://cdn/a?mime_type=audio_mp4''"

text \<open>
  The trimming as the specification words it: surrounding whitespace is removed, then
  exactly one pair of enclosing double quotes.
\<close>

definition spec_trim_one_pair :: "pystr \<Rightarrow> pystr" where
  "spec_trim_one_pair s =
     (let t = py_strip s
      in if 2 \<le> length t \<and> hd t = 0x22 \<and> last t = 0x22 then butlast (tl t) else t)"

text \<open>A span whose content is enclosed in two pairs of double quotes.\<close>

definition doubly_quoted_span :: pystr where
  \<open>doubly_quoted_span = str '' ""//cdn/a?mime_type=audio_mp4"" ''\<close>

text \<open>
  The blob of the specification's example with nothing around it, and the same URL
  value inside a JSON object in which the anchor is the value of a later key.
\<close>

definition spec_example_page :: pystr where
  \<open>spec_example_page = str ''":"//example.cdn/a.mp4",mime_type=audio_mp4''\<close>

definition spec_example_page_comma :: pystr where
  \<open>spec_example_page_comma = str ''{"u":"//example.cdn/a.mp4","k":"mime_type=audio_mp4","n":1}''\<close>

text \<open>A URL value that holds the anchor as a query parameter, with text to put around it.\<close>

definition anchored_url_fragment :: pystr where
  \<open>anchored_url_fragment = str ''":"//example.cdn/a.mp4?mime_type=audio_mp4",''\<close>

definition play_url_prefix :: pystr where
  \<open>play_url_prefix = str ''{"play_url''\<close>

definition play_url_suffix :: pystr where
  \<open>play_url_suffix = str ''"size":1}''\<close>

text \<open>
  A page whose title and artist resolve and whose cover URL ends in a backslash, and
  the four keys of a full descriptor.
\<close>

definition bad_cover_page :: pystr where
  \<open>bad_cover_page = str ''"trackName":"Song","artistName":"Artist","coverURL":"a'' @ [0x5C]
     @ str ''","x":"//cdn/a.m4a?mime_type=audio_mp4",''\<close>

definition descriptor_keys :: "pystr set" where
  "descriptor_keys = {str ''track_name'', str ''artist_name'', str ''cover_url'', str ''track_url''}"

section \<open>Concrete requests\<close>

text \<open>
  A full descriptor, and an outside world in which every request is answered with the
  given status, the content type \<open>audio/mp4\<close> and four bytes of content.
\<close>

definition sample_track_data :: track_data where
  "sample_track_data =
     [str ''track_name'' \<mapsto> str ''Song'', str ''artist_name'' \<mapsto> str ''Artist'',
      str ''cover_url'' \<mapsto> str ''https://img/c.jpg'', str ''track_url'' \<mapsto> str ''https://cdn/a.m4a'']"

definition audio_response :: "int \<Rightarrow> response" where
  "audio_response status =
     \<lparr>status_code = status, headers = [str ''Content-Type'' \<mapsto> str ''audio/mp4''],
      content = [0, 0, 0, 32]\<rparr>"

definition status_env :: "int \<Rightarrow> env" where
  "status_env status =
     \<lparr>session_get = (\<lambda>url. Inr (audio_response status)),
      mp4_load = (\<lambda>data. Inr Map.empty),
      mp4_save = (\<lambda>tags data. Inr data),
      tmp_name = str ''/tmp/tmpa.m4a''\<rparr>"

text \<open>
  A descriptor whose cover URL is the sentinel, and a world in which a request for the
  sentinel raises, as the HTTP client does for a URL without a scheme.
\<close>

definition unknown_cover_data :: track_data where
  "unknown_cover_data =
     [str ''track_name'' \<mapsto> str ''Song'', str ''artist_name'' \<mapsto> str ''Artist'',
      str ''cover_url'' \<mapsto> unknown, str ''track_url'' \<mapsto> str ''https://cdn/a.m4a'']"

definition no_scheme_env :: env where
  "no_scheme_env =
     \<lparr>session_get = (\<lambda>url. if url = unknown then Inl MissingSchema else Inr (audio_response 200)),
      mp4_load = (\<lambda>data. Inr Map.empty),
      mp4_save = (\<lambda>tags data. Inr data),
      tmp_name = str ''/tmp/tmpa.m4a''\<rparr>"

section \<open>Properties of the search primitives\<close>

lemma startswith_iff:
  "startswith xs p \<longleftrightarrow> length p \<le> length xs \<and> take (length p) xs = p"
  by (induction xs p rule: startswith.induct) auto

lemma occurs_at_0: "occurs_at xs sub 0 \<longleftrightarrow> startswith xs sub"
  by (auto simp: occurs_at_def startswith_iff)

lemma occurs_at_Suc: "occurs_at (x # xs) sub (Suc j) \<longleftrightarrow> occurs_at xs sub j"
  by (simp add: occurs_at_def)

lemma occurs_at_Nil: "occurs_at [] sub j \<longleftrightarrow> j = 0 \<and> sub = []"
  by (auto simp: occurs_at_def)

lemma occurs_at_drop:
  "s \<le> length text \<Longrightarrow> occurs_at (drop s text) sub j \<longleftrightarrow> occurs_at text sub (s + j)"
  by (auto simp: occurs_at_def add.commute)

lemma find_at_none: "find_at sub xs k = - 1 \<longleftrightarrow> (\<forall>j. \<not> occurs_at xs sub j)"
proof (induction xs arbitrary: k)
  case Nil
  show ?case by (auto simp: occurs_at_Nil)
next
  case (Cons x xs)
  show ?case
  proof (cases "startswith (x # xs) sub")
    case True
    then have "occurs_at (x # xs) sub 0" by (simp add: occurs_at_0)
    with True show ?thesis by auto
  next
    case False
    have "(\<forall>j. \<not> occurs_at (x # xs) sub j) \<longleftrightarrow> (\<forall>j. \<not> occurs_at xs sub j)"
    proof
      assume a: "\<forall>j. \<not> occurs_at (x # xs) sub j"
      show "\<forall>j. \<not> occurs_at xs sub j"
      proof
        fix j from a have "\<not> occurs_at (x # xs) sub (Suc j)" by blast
        then show "\<not> occurs_at xs sub j" by (simp add: occurs_at_Suc)
      qed
    next
      assume a: "\<forall>j. \<not> occurs_at xs sub j"
      show "\<forall>j. \<not> occurs_at (x # xs) sub j"
      proof
        fix j show "\<not> occurs_at (x # xs) sub j"
          using a False by (cases j) (simp_all add: occurs_at_0 occurs_at_Suc)
      qed
    qed
    with False Cons.IH [of "Suc k"] show ?thesis by simp
  qed
qed

lemma find_at_first:
  "find_at sub xs k \<noteq> - 1 \<Longrightarrow>
   \<exists>j. find_at sub xs k = int (k + j) \<and> occurs_at xs sub j \<and> (\<forall>j'<j. \<not> occurs_at xs sub j')"
proof (induction xs arbitrary: k)
  case Nil
  then show ?case by (auto simp: occurs_at_Nil split: if_splits)
next
  case (Cons x xs)
  show ?case
  proof (cases "startswith (x # xs) sub")
    case True
    then have "find_at sub (x # xs) k = int (k + 0) \<and> occurs_at (x # xs) sub 0
        \<and> (\<forall>j'<0. \<not> occurs_at (x # xs) sub j')"
      by (simp add: occurs_at_0)
    then show ?thesis by blast
  next
    case False
    with Cons.prems have "find_at sub xs (Suc k) \<noteq> - 1" by simp
    from Cons.IH [OF this] obtain j where j:
      "find_at sub xs (Suc k) = int (Suc k + j)" "occurs_at xs sub j"
      "\<forall>j'<j. \<not> occurs_at xs sub j'" by blast
    have "\<forall>j'<Suc j. \<not> occurs_at (x # xs) sub j'"
    proof (intro allI impI)
      fix j' assume "j' < Suc j"
      then show "\<not> occurs_at (x # xs) sub j'"
        using j(3) False by (cases j') (simp_all add: occurs_at_0 occurs_at_Suc)
    qed
    with j False have "find_at sub (x # xs) k = int (k + Suc j) \<and> occurs_at (x # xs) sub (Suc j)
        \<and> (\<forall>j'<Suc j. \<not> occurs_at (x # xs) sub j')"
      by (simp add: occurs_at_Suc)
    then show ?thesis by blast
  qed
qed

lemma occurs_at_bound: "occurs_at text sub j \<Longrightarrow> j + length sub \<le> length text"
  by (simp add: occurs_at_def)

lemma py_find_none_iff:
  "py_find text sub (int s) = - 1 \<longleftrightarrow> (\<forall>j\<ge>s. \<not> occurs_at text sub j)"
proof (cases "int (length text) - int s < int (length sub)")
  case True
  then have "\<forall>j\<ge>s. \<not> occurs_at text sub j"
    by (auto dest!: occurs_at_bound)
  with True show ?thesis by (simp add: py_find_def adjust_index_def)
next
  case False
  then have s: "s \<le> length text" by simp
  have "(\<forall>j. \<not> occurs_at (drop s text) sub j) \<longleftrightarrow> (\<forall>j\<ge>s. \<not> occurs_at text sub j)"
  proof
    assume a: "\<forall>j. \<not> occurs_at (drop s text) sub j"
    show "\<forall>j\<ge>s. \<not> occurs_at text sub j"
    proof (intro allI impI)
      fix j assume "s \<le> j"
      then have "j = s + (j - s)" by simp
      with a occurs_at_drop [OF s, of sub "j - s"] show "\<not> occurs_at text sub j" by metis
    qed
  next
    assume "\<forall>j\<ge>s. \<not> occurs_at text sub j"
    then show "\<forall>j. \<not> occurs_at (drop s text) sub j"
      by (simp add: occurs_at_drop [OF s])
  qed
  with False show ?thesis by (simp add: py_find_def adjust_index_def find_at_none)
qed

lemma py_find_first:
  assumes "py_find text sub (int s) \<noteq> - 1"
  shows "\<exists>i\<ge>s. py_find text sub (int s) = int i \<and> occurs_at text sub i
           \<and> (\<forall>j. s \<le> j \<and> j < i \<longrightarrow> \<not> occurs_at text sub j)"
proof -
  from assms have len: "\<not> int (length text) - int s < int (length sub)"
    and f: "find_at sub (drop s text) s \<noteq> - 1"
    by (auto simp: py_find_def adjust_index_def Let_def split: if_splits)
  from len have s: "s \<le> length text" by simp
  from find_at_first [OF f] obtain j where j:
    "find_at sub (drop s text) s = int (s + j)" "occurs_at (drop s text) sub j"
    "\<forall>j'<j. \<not> occurs_at (drop s text) sub j'" by blast
  have "\<forall>k. s \<le> k \<and> k < s + j \<longrightarrow> \<not> occurs_at text sub k"
  proof (intro allI impI)
    fix k assume k: "s \<le> k \<and> k < s + j"
    then have "k - s < j" "k = s + (k - s)" by auto
    with j(3) occurs_at_drop [OF s, of sub "k - s"] show "\<not> occurs_at text sub k" by metis
  qed
  moreover have "py_find text sub (int s) = int (s + j)"
    using len j(1) by (simp add: py_find_def adjust_index_def)
  moreover have "occurs_at text sub (s + j)"
    using j(2) by (simp add: occurs_at_drop [OF s])
  ultimately show ?thesis by (intro exI [of _ "s + j"]) simp
qed

lemma rfind_at_range:
  "rfind_at sub xs k = - 1 \<or> (\<exists>j. rfind_at sub xs k = int (k + j) \<and> j + length sub \<le> length xs)"
proof (induction xs arbitrary: k)
  case Nil
  show ?case by auto
next
  case (Cons x xs)
  show ?case
  proof (cases "rfind_at sub xs (Suc k) = - 1")
    case True
    show ?thesis
    proof (cases "startswith (x # xs) sub")
      case s: True
      then have "rfind_at sub (x # xs) k = int (k + 0) \<and> 0 + length sub \<le> length (x # xs)"
        using True by (simp add: startswith_iff)
      then show ?thesis by blast
    next
      case False
      with True show ?thesis by simp
    qed
  next
    case False
    with Cons.IH [of "Suc k"] obtain j where
      "rfind_at sub xs (Suc k) = int (Suc k + j)" "j + length sub \<le> length xs" by blast
    with False have "rfind_at sub (x # xs) k = int (k + Suc j) \<and> Suc j + length sub \<le> length (x # xs)"
      by (simp add: Let_def)
    then show ?thesis by blast
  qed
qed

lemma py_rfind_start_range:
  assumes "i \<le> length page"
  shows "0 \<le> py_rfind page [c] 0 (int i) + 1 \<and> py_rfind page [c] 0 (int i) + 1 \<le> int i"
proof -
  have "rfind_at [c] (take i page) 0 = - 1
      \<or> (\<exists>j. rfind_at [c] (take i page) 0 = int (0 + j) \<and> j + length [c] \<le> length (take i page))"
    by (rule rfind_at_range)
  with assms show ?thesis
    by (auto simp: py_rfind_def adjust_index_def Let_def)
qed

lemma py_find_firstD:
  assumes "py_find page sub 0 = int i"
  shows "occurs_at page sub i \<and> (\<forall>j<i. \<not> occurs_at page sub j)"
proof -
  from assms have "py_find page sub (int 0) \<noteq> - 1" by simp
  from py_find_first [OF this] assms show ?thesis by auto
qed

lemma py_find_absent: "(\<forall>i. \<not> occurs_at page sub i) \<Longrightarrow> py_find page sub 0 = - 1"
  using py_find_none_iff [of page sub 0] by simp

lemma py_find_first_eq:
  assumes "occurs_at page sub i" "\<forall>j<i. \<not> occurs_at page sub j"
  shows "py_find page sub 0 = int i"
proof -
  have ne: "py_find page sub (int 0) \<noteq> - 1"
    using assms(1) py_find_none_iff [of page sub 0] by auto
  from py_find_first [OF ne] obtain k where k: "py_find page sub (int 0) = int k"
    "occurs_at page sub k" "\<forall>j. 0 \<le> j \<and> j < k \<longrightarrow> \<not> occurs_at page sub j"
    by blast
  have "k = i"
    using assms k(2,3) by (metis linorder_neqE_nat le0)
  with k(1) show ?thesis by simp
qed

lemma strip_by_decomp:
  "\<exists>l r. s = l @ strip_by P s @ r \<and> list_all P l \<and> list_all P r
      \<and> (strip_by P s = [] \<or> (\<not> P (hd (strip_by P s)) \<and> \<not> P (last (strip_by P s))))"
proof -
  define l where "l = takeWhile P s"
  define m where "m = dropWhile P s"
  define r where "r = rev (takeWhile P (rev m))"
  have s: "s = l @ m" by (simp add: l_def m_def)
  have "rev (dropWhile P (rev m)) @ rev (takeWhile P (rev m))
      = rev (takeWhile P (rev m) @ dropWhile P (rev m))"
    by (simp only: rev_append)
  also have "\<dots> = rev (rev m)" by (simp only: takeWhile_dropWhile_id)
  also have "\<dots> = m" by simp
  finally have m: "m = strip_by P s @ r"
    by (simp add: strip_by_def r_def m_def)
  have pl: "list_all P l"
    by (auto simp: l_def list_all_iff dest: set_takeWhileD)
  have pr: "list_all P r"
    by (auto simp: r_def list_all_iff dest: set_takeWhileD)
  have e: "strip_by P s = [] \<or> (\<not> P (hd (strip_by P s)) \<and> \<not> P (last (strip_by P s)))"
  proof (cases "strip_by P s = []")
    case True then show ?thesis by simp
  next
    case False
    then have d: "dropWhile P (rev m) \<noteq> []" by (simp add: strip_by_def m_def)
    then have "\<not> P (hd (dropWhile P (rev m)))" by (rule hd_dropWhile)
    then have la: "\<not> P (last (strip_by P s))"
      using d by (simp add: strip_by_def m_def last_rev)
    have mne: "m \<noteq> []" using m False by auto
    then have "\<not> P (hd m)" unfolding m_def by (rule hd_dropWhile)
    moreover have "hd m = hd (strip_by P s)" using m False by (metis hd_append2)
    ultimately show ?thesis using la by simp
  qed
  from s m pl pr e show ?thesis by (intro exI [of _ l] exI [of _ r]) simp
qed

lemma startswith_append_notin:
  assumes "startswith (p @ c # r) sub" "c \<notin> set sub"
  shows "occurs_at p sub 0"
proof -
  from assms(1) have t: "take (length sub) (p @ c # r) = sub" by (simp add: startswith_iff)
  have le: "length sub \<le> length p"
  proof (rule ccontr)
    assume "\<not> length sub \<le> length p"
    then obtain n where n: "length sub - length p = Suc n" by (cases "length sub - length p") auto
    have "take (length sub) (p @ c # r) = p @ take (length sub - length p) (c # r)"
      using \<open>\<not> length sub \<le> length p\<close> by simp
    also have "\<dots> = p @ c # take n r" by (simp add: n)
    finally have "c \<in> set (take (length sub) (p @ c # r))" by simp
    with t assms(2) show False by simp
  qed
  with t have "take (length sub) p = sub" by simp
  with le show ?thesis by (simp add: occurs_at_def)
qed

lemma find_at_skip_prefix:
  assumes "\<forall>j. \<not> occurs_at pre sub j" "c \<notin> set sub"
  shows "find_at sub (pre @ c # r) k = find_at sub (c # r) (k + length pre)"
  using assms(1)
proof (induction pre arbitrary: k)
  case Nil
  show ?case by simp
next
  case (Cons x xs)
  have tl: "\<forall>j. \<not> occurs_at xs sub j"
  proof
    fix j from Cons.prems have "\<not> occurs_at (x # xs) sub (Suc j)" by blast
    then show "\<not> occurs_at xs sub j" by (simp add: occurs_at_Suc)
  qed
  have "\<not> startswith ((x # xs) @ c # r) sub"
    using startswith_append_notin [OF _ assms(2), of "x # xs" r] Cons.prems by blast
  then show ?case using Cons.IH [OF tl, of "Suc k"] by simp
qed

lemma rfind_at_append:
  "rfind_at sub ys (k + length xs) \<noteq> - 1 \<Longrightarrow> rfind_at sub (xs @ ys) k = rfind_at sub ys (k + length xs)"
proof (induction xs arbitrary: k)
  case Nil
  then show ?case by simp
next
  case (Cons x xs)
  from Cons.prems have "rfind_at sub ys (Suc k + length xs) \<noteq> - 1" by simp
  from Cons.IH [OF this] Cons.prems show ?case by (simp add: Let_def)
qed

section \<open>The field extractor\<close>

text \<open>
  Where the first end marker found from the start of the start-marker match does not
  overlap the start marker, \<open>extract_value\<close> returns the text between the two.
\<close>

lemma py_find_from_eq:
  assumes "occurs_at page sub k" "s \<le> k" "\<forall>j. s \<le> j \<and> j < k \<longrightarrow> \<not> occurs_at page sub j"
  shows "py_find page sub (int s) = int k"
proof -
  have ne: "py_find page sub (int s) \<noteq> - 1"
    using assms(1,2) by (auto simp: py_find_none_iff)
  from py_find_first [OF ne] obtain m where m: "s \<le> m" "py_find page sub (int s) = int m"
    "occurs_at page sub m" "\<forall>j. s \<le> j \<and> j < m \<longrightarrow> \<not> occurs_at page sub j"
    by blast
  have "m = k"
    using assms m(1,3,4) by (metis linorder_neqE_nat)
  with m(2) show ?thesis by simp
qed

lemma extract_value_between:
  assumes "occurs_at page start_marker i" "\<forall>j<i. \<not> occurs_at page start_marker j"
    and "occurs_at page end_marker k" "i \<le> k"
      "\<forall>j. i \<le> j \<and> j < k \<longrightarrow> \<not> occurs_at page end_marker j"
    and "i + length start_marker \<le> k"
  shows "extract_value page start_marker end_marker
         = take (k - (i + length start_marker)) (drop (i + length start_marker) page)"
proof -
  from assms(1,2) have s: "py_find page start_marker 0 = int i" by (rule py_find_first_eq)
  from assms(3,4,5) have e: "py_find page end_marker (int i) = int k" by (rule py_find_from_eq)
  from assms(3) have "k \<le> length page" by (simp add: occurs_at_def)
  with assms(6) show ?thesis
    by (simp add: extract_value_def s e py_slice_def adjust_index_def Let_def min_def
        nat_diff_distrib' nat_add_distrib)
qed

text \<open>
  Claim C7. \<open>extract_value\<close> is a total function: no operation of its body raises. It
  returns the sentinel \<open>"Unknown"\<close> whenever the start marker occurs nowhere in the
  text, and whenever no occurrence of the end marker begins at or after the index at
  which the first occurrence of the start marker begins.
\<close>

theorem extract_value_sentinel:
  assumes "(\<forall>i. \<not> occurs_at page start_marker i) \<or>
           (\<exists>i. occurs_at page start_marker i \<and> (\<forall>j<i. \<not> occurs_at page start_marker j)
                \<and> (\<forall>j\<ge>i. \<not> occurs_at page end_marker j))"
  shows "extract_value page start_marker end_marker = unknown"
  using assms
proof
  assume "\<forall>i. \<not> occurs_at page start_marker i"
  then have "py_find page start_marker 0 = - 1" by (rule py_find_absent)
  then show ?thesis by (simp add: extract_value_def)
next
  assume "\<exists>i. occurs_at page start_marker i \<and> (\<forall>j<i. \<not> occurs_at page start_marker j)
                \<and> (\<forall>j\<ge>i. \<not> occurs_at page end_marker j)"
  then obtain i where i: "occurs_at page start_marker i" "\<forall>j<i. \<not> occurs_at page start_marker j"
    "\<forall>j\<ge>i. \<not> occurs_at page end_marker j" by blast
  from i(1,2) have "py_find page start_marker 0 = int i" by (rule py_find_first_eq)
  moreover have "py_find page end_marker (int i) = - 1"
    using i(3) by (simp add: py_find_none_iff)
  ultimately show ?thesis by (simp add: extract_value_def)
qed

theorem extract_value_sentinel_witness:
  "(\<forall>i. \<not> occurs_at (str ''k=v;'') (str ''x='') i)
   \<and> extract_value (str ''k=v;'') (str ''x='') (str '';'') = unknown"
proof -
  have "py_find (str ''k=v;'') (str ''x='') 0 = - 1"
    by (simp add: py_find_def str_def adjust_index_def)
  then have h: "\<forall>i. \<not> occurs_at (str ''k=v;'') (str ''x='') i"
    using py_find_none_iff [of "str ''k=v;''" "str ''x=''" 0] by simp
  then show ?thesis
    using extract_value_sentinel [of "str ''k=v;''" "str ''x=''" "str '';''"] by blast
qed

text \<open>
  Claim C3. On \<open>comma_title_page\<close> the start marker \<open>"trackName":"\<close> occurs at index 0
  and ends at index 13; the first occurrence of the end marker \<open>","\<close> at or after
  index 13 is at index 14, so the text strictly between the two is the single comma.
  \<open>extract_value\<close> searches for the end marker from index 0, finds it at index 12,
  where it overlaps the last character of the start marker, and returns the empty
  string.
\<close>

theorem extract_value_overlapping_end_marker:
  "occurs_at comma_title_page track_name_marker 0
   \<and> length track_name_marker = 13
   \<and> \<not> occurs_at comma_title_page value_end_marker 13
   \<and> occurs_at comma_title_page value_end_marker 14
   \<and> py_slice comma_title_page 13 14 = str '',''
   \<and> py_find comma_title_page value_end_marker 0 = 12
   \<and> extract_value comma_title_page track_name_marker value_end_marker = []"
  by (simp add: comma_title_page_def track_name_marker_def value_end_marker_def str_def
      occurs_at_def py_slice_def adjust_index_def extract_value_def py_find_def)

section \<open>The track URL resolver\<close>

text \<open>
  Claim C10. When the anchor occurs in the text, first at index \<open>i\<close>, and no comma
  occurs at or after \<open>i\<close>, the search for the comma gives \<open>-1\<close> and the candidate span
  is the slice from just after the last colon before the anchor up to, but not
  including, the final character of the text: appending the final character of the
  text to the span gives the rest of the text. The function does not return the
  sentinel at this point; it goes on to trim and decode this span.
\<close>

theorem url_span_without_comma:
  assumes first: "occurs_at page anchor i" "\<forall>j<i. \<not> occurs_at page anchor j"
    and nocomma: "\<forall>j\<ge>i. \<not> occurs_at page (str '','') j"
  shows "py_find page anchor 0 = int i
    \<and> py_find page (str '','') (int i) = - 1
    \<and> url_span page (int i) = butlast (drop (nat (py_rfind page (str '':'') 0 (int i) + 1)) page)
    \<and> url_span page (int i) @ [last page] = drop (nat (py_rfind page (str '':'') 0 (int i) + 1)) page
    \<and> url_span page (int i) \<noteq> []
    \<and> extract_track_url_try page =
        (case json_loads_quoted (trim_span (url_span page (int i))) of
           Inl e \<Rightarrow> Inl e
         | Inr track_url \<Rightarrow>
             Inr (if startswith track_url (str ''//'') then str ''https:'' @ track_url
                  else track_url))"
proof -
  from first have f: "py_find page anchor 0 = int i" by (rule py_find_first_eq)
  have c: "py_find page (str '','') (int i) = - 1"
    using nocomma by (simp add: py_find_none_iff)
  from first(1) have len: "i + 19 \<le> length page"
    by (simp add: occurs_at_def anchor_def str_def)
  then have i: "i \<le> length page" by simp
  define s where "s = py_rfind page (str '':'') 0 (int i) + 1"
  have s: "0 \<le> s" "s \<le> int i"
    using py_rfind_start_range [OF i, of "0x3A"] by (simp_all add: s_def str_def)
  have span: "url_span page (int i) = take (length page - 1 - nat s) (drop (nat s) page)"
    using s len
    by (simp add: url_span_def c py_slice_def adjust_index_def Let_def s_def [symmetric]
        nat_diff_distrib' nat_add_distrib min_def)
  have dl: "length (drop (nat s) page) = length page - nat s" by simp
  have ge: "nat s < length page" using s len by linarith
  then have dne: "drop (nat s) page \<noteq> []" by simp
  have b: "url_span page (int i) = butlast (drop (nat s) page)"
    by (simp add: span butlast_conv_take)
  have l: "last (drop (nat s) page) = last page"
    using ge by simp
  have "url_span page (int i) @ [last page] = drop (nat s) page"
    using dne b l by (metis append_butlast_last_id)
  moreover have "url_span page (int i) \<noteq> []"
  proof -
    have "Suc (nat s) < length page" using s len by linarith
    then show ?thesis by (simp add: span)
  qed
  moreover have "extract_track_url_try page =
        (case json_loads_quoted (trim_span (url_span page (int i))) of
           Inl e \<Rightarrow> Inl e
         | Inr track_url \<Rightarrow>
             Inr (if startswith track_url (str ''//'') then str ''https:'' @ track_url
                  else track_url))"
    by (simp add: extract_track_url_try_def f)
  ultimately show ?thesis using f c b by (simp add: s_def)
qed

theorem url_span_without_comma_witness:
  "occurs_at no_comma_page anchor 10
   \<and> py_find no_comma_page (str '','') 10 = - 1
   \<and> url_span no_comma_page 10 = str ''//cdn/a?mime_type=audio_mp''
   \<and> url_span no_comma_page 10 @ str ''4'' = drop 2 no_comma_page
   \<and> extract_track_url no_comma_page = str ''https://cdn/a?mime_type=audio_mp''"
proof -
  have f: "py_find no_comma_page anchor 0 = int 10"
    by (simp add: no_comma_page_def anchor_def str_def py_find_def adjust_index_def)
  have c: "py_find no_comma_page (str '','') (int 10) = - 1"
    by (simp add: no_comma_page_def str_def py_find_def adjust_index_def)
  have r: "nat (py_rfind no_comma_page (str '':'') 0 10 + 1) = 2"
    by (simp add: no_comma_page_def str_def py_rfind_def adjust_index_def)
  have l: "[last no_comma_page] = str ''4''"
    by (simp add: no_comma_page_def str_def)
  have b: "butlast (drop 2 no_comma_page) = str ''//cdn/a?mime_type=audio_mp''"
    by (simp add: no_comma_page_def str_def)
  have t: "trim_span (str ''//cdn/a?mime_type=audio_mp'') = str ''//cdn/a?mime_type=audio_mp''"
    by (simp add: str_def trim_span_def py_strip_def py_strip_chars_def strip_by_def isspace_def)
  have j: "json_loads_quoted (str ''//cdn/a?mime_type=audio_mp'')
      = Inr (str ''//cdn/a?mime_type=audio_mp'')"
    by (simp add: str_def json_loads_quoted_def append_char_def)
  have n: "int 10 = 10" by simp
  from py_find_firstD [OF f] have h1: "occurs_at no_comma_page anchor 10"
    and h2: "\<forall>j<10. \<not> occurs_at no_comma_page anchor j" by simp_all
  from c have h3: "\<forall>j\<ge>10. \<not> occurs_at no_comma_page (str '','') j"
    by (simp only: py_find_none_iff)
  from url_span_without_comma [OF h1 h2 h3] have u:
    "py_find no_comma_page (str '','') 10 = - 1"
    "url_span no_comma_page 10 = str ''//cdn/a?mime_type=audio_mp''"
    "url_span no_comma_page 10 @ str ''4'' = drop 2 no_comma_page"
    "extract_track_url_try no_comma_page =
        (case json_loads_quoted (trim_span (url_span no_comma_page 10)) of
           Inl e \<Rightarrow> Inl e
         | Inr track_url \<Rightarrow>
             Inr (if startswith track_url (str ''//'') then str ''https:'' @ track_url
                  else track_url))"
    unfolding n r l b by blast+
  have "extract_track_url no_comma_page = str ''https:'' @ str ''//cdn/a?mime_type=audio_mp''"
    unfolding extract_track_url_def u(4) u(2) t j by (simp add: str_def)
  then have "extract_track_url no_comma_page = str ''https://cdn/a?mime_type=audio_mp''"
    by (simp add: str_def)
  with h1 u(1,2,3) show ?thesis by blast
qed

text \<open>
  Claim C8. \<open>extract_track_url\<close> is a total function: whatever the body of its \<open>try\<close>
  raises becomes the sentinel. It returns \<open>"Unknown"\<close> whenever the anchor
  \<open>mime_type=audio_mp4\<close> occurs nowhere in the text, and whenever decoding the trimmed
  span around the first occurrence of the anchor as a JSON string literal fails.
\<close>

theorem extract_track_url_sentinel:
  assumes "(\<forall>i. \<not> occurs_at page anchor i) \<or>
           (\<exists>i e. occurs_at page anchor i \<and> (\<forall>j<i. \<not> occurs_at page anchor j)
                  \<and> json_loads_quoted (trim_span (url_span page (int i))) = Inl e)"
  shows "extract_track_url page = unknown"
  using assms
proof
  assume "\<forall>i. \<not> occurs_at page anchor i"
  then have "py_find page anchor 0 = - 1" by (rule py_find_absent)
  then show ?thesis by (simp add: extract_track_url_def extract_track_url_try_def)
next
  assume "\<exists>i e. occurs_at page anchor i \<and> (\<forall>j<i. \<not> occurs_at page anchor j)
                  \<and> json_loads_quoted (trim_span (url_span page (int i))) = Inl e"
  then obtain i e where i: "occurs_at page anchor i" "\<forall>j<i. \<not> occurs_at page anchor j"
    "json_loads_quoted (trim_span (url_span page (int i))) = Inl e" by blast
  from i(1,2) have "py_find page anchor 0 = int i" by (rule py_find_first_eq)
  with i(3) show ?thesis by (simp add: extract_track_url_def extract_track_url_try_def)
qed

theorem extract_track_url_sentinel_witness:
  "(\<forall>i. \<not> occurs_at no_anchor_page anchor i)
   \<and> extract_track_url no_anchor_page = unknown
   \<and> occurs_at bad_escape_page anchor 14
   \<and> json_loads_quoted (trim_span (url_span bad_escape_page 14)) = Inl JSONDecodeError
   \<and> extract_track_url bad_escape_page = unknown"
proof -
  have "py_find no_anchor_page anchor (int 0) = - 1"
    by (simp add: no_anchor_page_def anchor_def str_def py_find_def adjust_index_def)
  then have a: "\<forall>i. \<not> occurs_at no_anchor_page anchor i"
    by (simp only: py_find_none_iff) simp
  have f: "py_find bad_escape_page anchor 0 = int 14"
    by (simp add: bad_escape_page_def anchor_def str_def py_find_def adjust_index_def)
  from py_find_firstD [OF f] have h1: "occurs_at bad_escape_page anchor 14"
    and h2: "\<forall>j<14. \<not> occurs_at bad_escape_page anchor j" by simp_all
  have s: "url_span bad_escape_page (int 14)
      = [0x22] @ str ''//cdn/'' @ [0x5C] @ str ''x?mime_type=audio_mp4'' @ [0x22]"
    by (simp add: bad_escape_page_def str_def py_find_def adjust_index_def url_span_def
        py_rfind_def py_slice_def)
  have t: "trim_span ([0x22] @ str ''//cdn/'' @ [0x5C] @ str ''x?mime_type=audio_mp4'' @ [0x22])
      = str ''//cdn/'' @ [0x5C] @ str ''x?mime_type=audio_mp4''"
    by (simp add: str_def trim_span_def py_strip_def py_strip_chars_def strip_by_def isspace_def)
  have j: "json_loads_quoted (str ''//cdn/'' @ [0x5C] @ str ''x?mime_type=audio_mp4'')
      = Inl JSONDecodeError"
    by (simp add: str_def json_loads_quoted_def append_char_def backslash_def)
  have d: "json_loads_quoted (trim_span (url_span bad_escape_page (int 14))) = Inl JSONDecodeError"
    by (simp only: s t j)
  have b: "extract_track_url bad_escape_page = unknown"
    using extract_track_url_sentinel [of bad_escape_page] h1 h2 d by blast
  have "extract_track_url no_anchor_page = unknown"
    using extract_track_url_sentinel [of no_anchor_page] a by blast
  with a b h1 d show ?thesis by simp
qed

text \<open>
  Claim C9, as stated, fails: \<open>.strip('"')\<close> removes every leading and trailing double
  quote, not one pair. On a span enclosed in two pairs of quotes the source keeps no
  quote, where removing exactly one pair would keep the inner pair.
\<close>

theorem trim_span_strips_all_quotes:
  \<open>trim_span doubly_quoted_span = str ''//cdn/a?mime_type=audio_mp4''
   \<and> spec_trim_one_pair doubly_quoted_span = str ''"//cdn/a?mime_type=audio_mp4"''
   \<and> trim_span doubly_quoted_span \<noteq> spec_trim_one_pair doubly_quoted_span\<close>
  by (simp add: doubly_quoted_span_def str_def trim_span_def py_strip_def py_strip_chars_def
      strip_by_def isspace_def spec_trim_one_pair_def)

text \<open>
  Claim C9, amended. The trimmed span is what is left of the span after removing a
  run of whitespace at each end and then a run of double quotes at each end; the
  whitespace-stripped span neither begins nor ends with whitespace, and the result
  neither begins nor ends with a double quote.
\<close>

theorem trim_span_decomp:
  "\<exists>w1 q1 q2 w2. s = w1 @ q1 @ trim_span s @ q2 @ w2
      \<and> list_all isspace w1 \<and> list_all isspace w2
      \<and> list_all (\<lambda>c. c = 0x22) q1 \<and> list_all (\<lambda>c. c = 0x22) q2
      \<and> (trim_span s = [] \<or> (hd (trim_span s) \<noteq> 0x22 \<and> last (trim_span s) \<noteq> 0x22))
      \<and> (py_strip s = [] \<or> (\<not> isspace (hd (py_strip s)) \<and> \<not> isspace (last (py_strip s))))
      \<and> py_strip s = q1 @ trim_span s @ q2"
proof -
  from strip_by_decomp [of s isspace] obtain w1 w2 where
    w: "s = w1 @ py_strip s @ w2" "list_all isspace w1" "list_all isspace w2"
      "py_strip s = [] \<or> (\<not> isspace (hd (py_strip s)) \<and> \<not> isspace (last (py_strip s)))"
    unfolding py_strip_def by blast
  from strip_by_decomp [of "py_strip s" "\<lambda>c. c \<in> set [0x22]"] obtain q1 q2 where
    q: "py_strip s = q1 @ trim_span s @ q2" "list_all (\<lambda>c. c = 0x22) q1" "list_all (\<lambda>c. c = 0x22) q2"
      "trim_span s = [] \<or> (hd (trim_span s) \<noteq> 0x22 \<and> last (trim_span s) \<noteq> 0x22)"
    unfolding trim_span_def py_strip_chars_def by auto
  from w(1) q(1) have "s = w1 @ q1 @ trim_span s @ q2 @ w2" by simp
  with w q show ?thesis by blast
qed

text \<open>
  Claim C4, as stated, fails. When the anchor comes after the comma that closes the
  URL value, the span taken around the anchor is not the URL value: on the blob of the
  specification's example the span runs from the first colon to the end of the text,
  its decoding fails and the result is the sentinel; inside a JSON object the result is
  the text around the anchor.
\<close>

theorem extract_track_url_anchor_after_comma:
  "extract_track_url spec_example_page = unknown
   \<and> extract_track_url spec_example_page \<noteq> str ''https://example.cdn/a.mp4''
   \<and> extract_track_url spec_example_page_comma = str ''mime_type=audio_mp4''
   \<and> extract_track_url spec_example_page_comma \<noteq> str ''https://example.cdn/a.mp4''"
  by (simp add: spec_example_page_def spec_example_page_comma_def str_def extract_track_url_def
      extract_track_url_try_def anchor_def py_find_def adjust_index_def url_span_def py_rfind_def
      py_slice_def trim_span_def py_strip_def py_strip_chars_def strip_by_def isspace_def
      json_loads_quoted_def append_char_def json_ws_def unknown_def)

text \<open>
  Claim C4, amended. When the anchor lies inside the URL value, as a query parameter
  of \<open>//example.cdn/a.mp4\<close>, the value delimited by the preceding colon and the
  following comma is returned with \<open>https:\<close> in front, for every text before it in which
  the anchor does not occur and every text after it.
\<close>

theorem extract_track_url_anchor_inside_url:
  assumes "\<forall>j. \<not> occurs_at pre anchor j"
  shows "extract_track_url (pre @ anchored_url_fragment @ post)
         = str ''https://example.cdn/a.mp4?mime_type=audio_mp4''"
proof -
  define page where "page = pre @ anchored_url_fragment @ post"
  define n where "n = length pre"
  have q: "0x22 \<notin> set anchor" by (simp add: anchor_def str_def)
  obtain r where r: "anchored_url_fragment @ post = 0x22 # r"
    by (simp add: anchored_url_fragment_def str_def)
  have "find_at anchor page 0 = find_at anchor (anchored_url_fragment @ post) n"
    unfolding page_def r n_def using find_at_skip_prefix [OF assms q, of r 0] by simp
  also have "\<dots> = int (n + 23)"
    by (simp add: anchored_url_fragment_def anchor_def str_def)
  finally have "find_at anchor page 0 = int (n + 23)" .
  then have mime: "py_find page anchor 0 = int (n + 23)"
    by (simp add: py_find_def adjust_index_def page_def anchored_url_fragment_def str_def anchor_def)
  have tk: "take (n + 23) page = pre @ take 23 anchored_url_fragment"
    by (simp add: page_def n_def anchored_url_fragment_def str_def)
  have rf: "rfind_at (str '':'') (take 23 anchored_url_fragment) n = int (n + 1)"
    by (simp add: anchored_url_fragment_def str_def)
  have "rfind_at (str '':'') (pre @ take 23 anchored_url_fragment) 0
        = rfind_at (str '':'') (take 23 anchored_url_fragment) (0 + length pre)"
    by (rule rfind_at_append) (simp add: rf [unfolded n_def])
  with rf have "rfind_at (str '':'') (take (n + 23) page) 0 = int (n + 1)"
    unfolding tk by (simp add: n_def)
  then have start: "py_rfind page (str '':'') 0 (int (n + 23)) + 1 = int (n + 2)"
    by (simp add: py_rfind_def adjust_index_def page_def n_def nat_add_distrib
        anchored_url_fragment_def str_def)
  have fl: "length anchored_url_fragment = 44"
    by (simp add: anchored_url_fragment_def str_def)
  have dr: "drop (n + 23) page = drop 23 anchored_url_fragment @ post"
    by (simp add: page_def n_def fl)
  have lp: "length page = n + 44 + length post"
    by (simp add: page_def n_def fl)
  have "py_find page (str '','') (int (n + 23)) = find_at (str '','') (drop (n + 23) page) (n + 23)"
    by (simp add: py_find_def adjust_index_def Let_def lp str_def nat_add_distrib)
  also have "\<dots> = find_at (str '','') (drop 23 anchored_url_fragment @ post) (n + 23)"
    by (simp only: dr)
  also have "\<dots> = int (n + 43)"
    by (simp add: anchored_url_fragment_def str_def)
  finally have en: "py_find page (str '','') (int (n + 23)) = int (n + 43)" .
  have sl: "py_slice page (int (n + 2)) (int (n + 43)) = take 41 (drop 2 anchored_url_fragment)"
    by (simp add: py_slice_def adjust_index_def page_def n_def anchored_url_fragment_def str_def
        nat_add_distrib min_def)
  have span: "url_span page (int (n + 23)) = take 41 (drop 2 anchored_url_fragment)"
    by (simp only: url_span_def start en Let_def sl)
  have tr: "trim_span (take 41 (drop 2 anchored_url_fragment))
      = str ''//example.cdn/a.mp4?mime_type=audio_mp4''"
    by (simp add: anchored_url_fragment_def str_def trim_span_def py_strip_def
        py_strip_chars_def strip_by_def isspace_def)
  have js: "json_loads_quoted (str ''//example.cdn/a.mp4?mime_type=audio_mp4'')
      = Inr (str ''//example.cdn/a.mp4?mime_type=audio_mp4'')"
    by (simp add: str_def json_loads_quoted_def append_char_def)
  have sw: "startswith (str ''//example.cdn/a.mp4?mime_type=audio_mp4'') (str ''//'')"
    by (simp add: str_def)
  have "extract_track_url page = str ''https:'' @ str ''//example.cdn/a.mp4?mime_type=audio_mp4''"
    unfolding extract_track_url_def extract_track_url_try_def mime Let_def span tr js
    using sw by simp
  then show ?thesis by (simp add: page_def str_def)
qed

theorem extract_track_url_anchor_inside_url_witness:
  "(\<forall>j. \<not> occurs_at play_url_prefix anchor j)
   \<and> extract_track_url (play_url_prefix @ anchored_url_fragment @ play_url_suffix)
       = str ''https://example.cdn/a.mp4?mime_type=audio_mp4''"
proof -
  have "py_find play_url_prefix anchor (int 0) = - 1"
    by (simp add: play_url_prefix_def anchor_def str_def py_find_def adjust_index_def)
  then have a: "\<forall>j. \<not> occurs_at play_url_prefix anchor j"
    by (simp only: py_find_none_iff) simp
  from extract_track_url_anchor_inside_url [OF a, of play_url_suffix] a show ?thesis by blast
qed

section \<open>The track descriptor builder\<close>

lemma bad_cover_page_name: "extract_value bad_cover_page track_name_marker value_end_marker = str ''Song''"
  by (simp add: bad_cover_page_def track_name_marker_def value_end_marker_def str_def
      extract_value_def py_find_def adjust_index_def py_slice_def)

lemma bad_cover_page_artist: "extract_value bad_cover_page artist_name_marker value_end_marker = str ''Artist''"
  by (simp add: bad_cover_page_def artist_name_marker_def value_end_marker_def str_def
      extract_value_def py_find_def adjust_index_def py_slice_def)

lemma bad_cover_page_cover: "extract_value bad_cover_page cover_url_marker value_end_marker = str ''a'' @ [0x5C]"
  by (simp add: bad_cover_page_def cover_url_marker_def value_end_marker_def str_def
      extract_value_def py_find_def adjust_index_def py_slice_def)

lemma trailing_backslash_undecodable: "json_loads_quoted (str ''a'' @ [0x5C]) = Inl JSONDecodeError"
  by (simp add: str_def json_loads_quoted_def append_char_def backslash_def)

lemma keys_distinct:
  "str ''track_name'' \<noteq> str ''artist_name''" "str ''track_name'' \<noteq> str ''cover_url''"
  "str ''track_name'' \<noteq> str ''track_url''" "str ''artist_name'' \<noteq> str ''cover_url''"
  "str ''artist_name'' \<noteq> str ''track_url''" "str ''cover_url'' \<noteq> str ''track_url''"
  by (simp_all add: str_def)

text \<open>
  Claim C1, as stated, fails. On \<open>bad_cover_page\<close> the title and the artist resolve,
  the extracted cover URL is the letter a followed by a backslash, whose decoding raises, and the handler returns the
  empty dictionary: no field is populated and the cover URL is not the sentinel.
\<close>

theorem cover_decode_failure_empties_descriptor:
  "extract_value bad_cover_page track_name_marker value_end_marker = str ''Song''
   \<and> extract_value bad_cover_page artist_name_marker value_end_marker = str ''Artist''
   \<and> json_loads_quoted (extract_value bad_cover_page cover_url_marker value_end_marker)
       = Inl JSONDecodeError
   \<and> extract_and_log_data bad_cover_page = Map.empty
   \<and> extract_and_log_data bad_cover_page (str ''cover_url'') \<noteq> Some unknown"
  by (simp add: bad_cover_page_name bad_cover_page_artist bad_cover_page_cover
      trailing_backslash_undecodable extract_and_log_data_def
      extract_and_log_data_try_def)

text \<open>
  Claim C1, amended. \<open>extract_and_log_data\<close> is a total function. When decoding the
  extracted cover URL fails, it returns the empty dictionary. Otherwise it returns a
  dictionary with exactly the four keys: the title and the artist as \<open>extract_value\<close>
  gives them (the sentinel when a marker is missing), the decoded cover URL (the
  sentinel decodes to itself) and the track URL as \<open>extract_track_url\<close> gives it.
\<close>

theorem extract_and_log_data_result:
  "(case json_loads_quoted (extract_value page cover_url_marker value_end_marker) of
      Inl e \<Rightarrow> extract_and_log_data page = Map.empty
    | Inr cover_url \<Rightarrow>
        dom (extract_and_log_data page) = descriptor_keys
        \<and> extract_and_log_data page (str ''track_name'')
            = Some (extract_value page track_name_marker value_end_marker)
        \<and> extract_and_log_data page (str ''artist_name'')
            = Some (extract_value page artist_name_marker value_end_marker)
        \<and> extract_and_log_data page (str ''cover_url'') = Some cover_url
        \<and> extract_and_log_data page (str ''track_url'') = Some (extract_track_url page))
   \<and> json_loads_quoted unknown = Inr unknown"
proof -
  have u: "json_loads_quoted unknown = Inr unknown"
    by (simp add: unknown_def str_def json_loads_quoted_def append_char_def)
  show ?thesis
  proof (cases "json_loads_quoted (extract_value page cover_url_marker value_end_marker)")
    case (Inl e)
    then show ?thesis
      by (simp add: u extract_and_log_data_def extract_and_log_data_try_def)
  next
    case (Inr cover_url)
    then show ?thesis
      using keys_distinct
      by (auto simp: u extract_and_log_data_def extract_and_log_data_try_def descriptor_keys_def
          Let_def)
  qed
qed

section \<open>Downloading and tagging\<close>

lemma sample_track_data_simps:
  "sample_track_data (str ''track_url'') = Some (str ''https://cdn/a.m4a'')"
  "sample_track_data (str ''track_name'') = Some (str ''Song'')"
  "sample_track_data (str ''artist_name'') = Some (str ''Artist'')"
  "sample_track_data (str ''cover_url'') = Some (str ''https://img/c.jpg'')"
  using keys_distinct by (simp_all add: sample_track_data_def)

lemma audio_mp4_in: "py_in (str ''audio/mp4'') (str ''audio/mp4'')"
  by (simp add: py_in_def py_find_def adjust_index_def str_def)

lemma content_type_audio:
  "headers_get (headers (audio_response status)) (str ''Content-Type'') [] = str ''audio/mp4''"
  by (simp add: audio_response_def headers_get_def)

lemma unknown_cover_data_simps:
  "unknown_cover_data (str ''track_url'') = Some (str ''https://cdn/a.m4a'')"
  "unknown_cover_data (str ''track_name'') = Some (str ''Song'')"
  "unknown_cover_data (str ''artist_name'') = Some (str ''Artist'')"
  "unknown_cover_data (str ''cover_url'') = Some unknown"
  using keys_distinct by (simp_all add: unknown_cover_data_def)

text \<open>
  What the function does with the temporary file: once an \<open>Unlink\<close> is among the
  operations, the file is gone; a file that was written is still there at the end
  exactly when no \<open>Unlink\<close> was performed. On success, the buffer returned is what the
  MP4 library's \<open>save\<close> made of the parsed tags with the title, artist and cover atoms
  set, every other atom as parsed.
\<close>

lemma temp_file_removed_on_handled_paths:
  assumes "download_and_set_metadata env track_data fs = (res, fs', ev)"
    and "Unlink (tmp_name env) \<in> set ev"
  shows "fs' (tmp_name env) = None"
  using assms
  by (auto simp: download_and_set_metadata_def Let_def
      split: option.splits sum.splits if_splits)

lemma temp_file_left_iff:
  assumes "download_and_set_metadata env track_data fs = (res, fs', ev)"
    and "TempWrite (tmp_name env) audio_content \<in> set ev"
  shows "fs' (tmp_name env) = Some audio_content \<longleftrightarrow> Unlink (tmp_name env) \<notin> set ev"
  using assms
  by (auto simp: download_and_set_metadata_def Let_def
      split: option.splits sum.splits if_splits)

lemma download_success_tags:
  assumes "download_and_set_metadata env track_data fs = (Some (buffer, filename), fs', ev)"
  shows "\<exists>track_url track_name artist_name cover_url r r2 audio.
      track_data (str ''track_url'') = Some track_url
      \<and> track_data (str ''track_name'') = Some track_name
      \<and> track_data (str ''artist_name'') = Some artist_name
      \<and> track_data (str ''cover_url'') = Some cover_url
      \<and> session_get env track_url = Inr r \<and> session_get env cover_url = Inr r2
      \<and> mp4_load env (content r) = Inr audio
      \<and> mp4_save env (audio(atom_nam \<mapsto> Text track_name, atom_ART \<mapsto> Text artist_name,
                              atom_covr \<mapsto> Covers [(content r2, FORMAT_JPEG)])) (content r)
          = Inr buffer
      \<and> filename = track_name @ str '' - '' @ artist_name @ str ''.m4a''
      \<and> fs' = fs(tmp_name env := None)"
  using assms
  by (auto simp: download_and_set_metadata_def Let_def
      split: option.splits sum.splits if_splits)

text \<open>
  Claim C5, as stated, fails: the status is compared with 200, so a response with
  status 206 and content type \<open>audio/mp4\<close> is rejected.
\<close>

theorem audio_status_206_rejected:
  "session_get (status_env 206) (str ''https://cdn/a.m4a'') = Inr (audio_response 206)
   \<and> 200 \<le> status_code (audio_response 206) \<and> status_code (audio_response 206) < 300
   \<and> py_in (str ''audio/mp4'')
        (headers_get (headers (audio_response 206)) (str ''Content-Type'') [])
   \<and> download_and_set_metadata (status_env 206) sample_track_data Map.empty
       = (None, Map.empty, [HttpGet (str ''https://cdn/a.m4a'')])"
  by (simp add: download_and_set_metadata_def sample_track_data_simps status_env_def
      content_type_audio audio_mp4_in)
     (simp add: audio_response_def)

text \<open>
  Claim C5, amended. For a descriptor with its four keys and an audio request that
  returns a response, the audio content is written to the temporary file if and only
  if the status is exactly 200 and the \<open>Content-Type\<close> header contains \<open>audio/mp4\<close> or
  \<open>video/mp4\<close>; otherwise the function returns \<open>(None, None)\<close> having done nothing but
  the request: no temporary file, no tagging.
\<close>

theorem audio_download_accepted_iff:
  assumes keys: "track_data (str ''track_url'') = Some track_url"
      "track_data (str ''track_name'') = Some track_name"
      "track_data (str ''artist_name'') = Some artist_name"
      "track_data (str ''cover_url'') = Some cover_url"
    and resp: "session_get env track_url = Inr r"
  shows "((\<exists>ev. snd (snd (download_and_set_metadata env track_data fs))
             = [HttpGet track_url, TempWrite (tmp_name env) (content r)] @ ev)
          \<longleftrightarrow> (status_code r = 200
               \<and> (py_in (str ''audio/mp4'') (headers_get (headers r) (str ''Content-Type'') [])
                  \<or> py_in (str ''video/mp4'') (headers_get (headers r) (str ''Content-Type'') []))))
       \<and> ((\<exists>ev. snd (snd (download_and_set_metadata env track_data fs))
             = [HttpGet track_url, TempWrite (tmp_name env) (content r)] @ ev)
          \<or> download_and_set_metadata env track_data fs = (None, fs, [HttpGet track_url]))"
  using keys resp
  by (auto simp: download_and_set_metadata_def Let_def split: sum.splits)

theorem audio_download_accepted_iff_witness:
  "status_code (audio_response 200) = 200
   \<and> (\<exists>ev. snd (snd (download_and_set_metadata (status_env 200) sample_track_data Map.empty))
          = [HttpGet (str ''https://cdn/a.m4a''),
             TempWrite (tmp_name (status_env 200)) (content (audio_response 200))] @ ev)
   \<and> status_code (audio_response 404) \<noteq> 200
   \<and> download_and_set_metadata (status_env 404) sample_track_data Map.empty
       = (None, Map.empty, [HttpGet (str ''https://cdn/a.m4a'')])"
proof -
  have g: "session_get (status_env s) (str ''https://cdn/a.m4a'') = Inr (audio_response s)" for s
    by (simp add: status_env_def)
  have s: "status_code (audio_response s) = s" for s
    by (simp add: audio_response_def)
  note ok = audio_download_accepted_iff [OF sample_track_data_simps g, of 200 Map.empty]
  note ko = audio_download_accepted_iff [OF sample_track_data_simps g, of 404 Map.empty]
  from ok have a: "\<exists>ev. snd (snd (download_and_set_metadata (status_env 200) sample_track_data Map.empty))
          = [HttpGet (str ''https://cdn/a.m4a''),
             TempWrite (tmp_name (status_env 200)) (content (audio_response 200))] @ ev"
    by (simp add: s content_type_audio audio_mp4_in)
  have n: "(404::int) \<noteq> 200" by simp
  from ko n have b: "download_and_set_metadata (status_env 404) sample_track_data Map.empty
       = (None, Map.empty, [HttpGet (str ''https://cdn/a.m4a'')])"
    unfolding s by blast
  from a b show ?thesis by (simp add: s)
qed

text \<open>
  Claim C2. The descriptor's cover URL is the sentinel, the audio request succeeds and
  the temporary file is written; the cover request raises, the outer handler returns
  \<open>(None, None)\<close>, and the temporary file is still in the file system.
\<close>

theorem temp_file_left_when_cover_get_raises:
  "session_get no_scheme_env unknown = Inl MissingSchema
   \<and> fst (download_and_set_metadata no_scheme_env unknown_cover_data Map.empty) = None
   \<and> fst (snd (download_and_set_metadata no_scheme_env unknown_cover_data Map.empty))
        (str ''/tmp/tmpa.m4a'') = Some [0, 0, 0, 32]
   \<and> snd (snd (download_and_set_metadata no_scheme_env unknown_cover_data Map.empty))
       = [HttpGet (str ''https://cdn/a.m4a''), TempWrite (str ''/tmp/tmpa.m4a'') [0, 0, 0, 32],
          HttpGet unknown]"
proof -
  have u: "str ''https://cdn/a.m4a'' \<noteq> unknown" by (simp add: unknown_def str_def)
  show ?thesis
    by (simp add: download_and_set_metadata_def unknown_cover_data_simps no_scheme_env_def u
        content_type_audio audio_mp4_in)
       (simp add: audio_response_def Let_def)
qed

end
